theory Spec2Isabelle
  imports Main "HOL-Library.Word"
begin

unbundle bit_operations_syntax

section \<open>The coverage plugin: data model\<close>

text \<open>
  The plugin of \<^verbatim>\<open>panda/plugins/coverage/coverage.cpp\<close> logs every distinct pair of
  an execution context and a block address once. \<^verbatim>\<open>target_ulong\<close> is the guest's
  machine word, 32 or 64 bits wide depending on the target: it is \<open>'w word\<close> here,
  and the records that hold one take its type as their parameter \<open>'u\<close>.
  \<^verbatim>\<open>size_t\<close> is the 64-bit word of the host.
\<close>

type_synonym size_t = "64 word"
type_synonym 'w target_ulong = "'w word"

datatype coverage_mode = MODE_PROCESS | MODE_ASID

record 'u RecordID =
  pid_or_asid :: 'u
  pc :: 'u

text \<open>
  \<^verbatim>\<open>std::hash<RecordID>::operator()\<close> (lines 35 to 42). The hash of a
  \<^verbatim>\<open>target_ulong\<close>, \<^verbatim>\<open>std::hash<target_ulong>\<close>, belongs to the C++ library and is
  the parameter \<open>h\<close>.
\<close>

definition hash_RecordID :: "('w target_ulong \<Rightarrow> size_t) \<Rightarrow> 'w target_ulong RecordID \<Rightarrow> size_t" where
  "hash_RecordID h s =
     (let h1 = h (pid_or_asid s);
          h2 = h (pc s)
      in h1 XOR (push_bit 1 h2))"

text \<open>\<^verbatim>\<open>operator==\<close> on \<^verbatim>\<open>RecordID\<close> (lines 48 to 52).\<close>

definition RecordID_eq :: "'w target_ulong RecordID \<Rightarrow> 'w target_ulong RecordID \<Rightarrow> bool" where
  "RecordID_eq lhs rhs =
     (let result = (pid_or_asid lhs = pid_or_asid rhs) \<and> (pc lhs = pc rhs)
      in result)"

subsection \<open>The seen-set: \<^verbatim>\<open>std::unordered_set<RecordID>\<close>\<close>

text \<open>
  The container is a chained hash table. A key lives in the bucket selected by its hash
  modulo the number of buckets; \<^verbatim>\<open>find\<close> walks that bucket only and compares with
  \<^verbatim>\<open>operator==\<close>; \<^verbatim>\<open>insert\<close> adds the key to its bucket unless an equal key is
  there. The number of buckets is fixed when the table is created (the library's
  rehashing moves keys to the buckets their hashes select and leaves membership as it is).
\<close>

type_synonym 'w unordered_set = "'w target_ulong RecordID list list"

definition us_empty :: "nat \<Rightarrow> 'w unordered_set" where
  "us_empty n = replicate n []"

definition us_bucket :: "('w target_ulong \<Rightarrow> size_t) \<Rightarrow> 'w unordered_set \<Rightarrow> 'w target_ulong RecordID \<Rightarrow> nat" where
  "us_bucket h bs k = unat (hash_RecordID h k) mod length bs"

fun bucket_find :: "'w target_ulong RecordID list \<Rightarrow> 'w target_ulong RecordID \<Rightarrow> bool" where
  "bucket_find [] k = False"
| "bucket_find (x # xs) k = (if RecordID_eq x k then True else bucket_find xs k)"

definition us_find :: "('w target_ulong \<Rightarrow> size_t) \<Rightarrow> 'w unordered_set \<Rightarrow> 'w target_ulong RecordID \<Rightarrow> bool" where
  "us_find h bs k = bucket_find (bs ! us_bucket h bs k) k"

definition us_insert ::
  "('w target_ulong \<Rightarrow> size_t) \<Rightarrow> 'w unordered_set \<Rightarrow> 'w target_ulong RecordID \<Rightarrow> 'w unordered_set" where
  "us_insert h bs k =
     (if us_find h bs k then bs
      else bs[us_bucket h bs k := k # bs ! us_bucket h bs k])"

subsection \<open>The host's objects\<close>

text \<open>
  \<^verbatim>\<open>OsiThread\<close> and \<^verbatim>\<open>OsiProc\<close> come from the OS introspection headers; the plugin
  reads the fields below. The process and thread ids are kept as the
  \<^verbatim>\<open>target_ulong\<close> values the plugin converts them to.
\<close>

record 'u OsiThread =
  pid :: 'u
  tid :: 'u

record OsiProc =
  name :: string

text \<open>
  A \<^verbatim>\<open>CPUState\<close> is seen through four accessors of the host only, so it is the record of
  what they return: a null pointer is \<open>None\<close>.
\<close>

record 'u CPUState =
  get_current_thread :: "'u OsiThread option"
  get_current_process :: "OsiProc option"
  panda_in_kernel :: bool
  panda_current_asid :: 'u

text \<open>
  Of a \<^verbatim>\<open>TranslationBlock\<close> the plugin reads the start address \<^verbatim>\<open>pc\<close> and the
  \<^verbatim>\<open>size\<close>, a 16-bit field that it widens to 64 bits before printing.
\<close>

record 'u TranslationBlock =
  tb_pc :: 'u
  tb_size :: "16 word"


subsection \<open>Formatting\<close>

text \<open>
  \<^verbatim>\<open>%lu\<close> prints an unsigned number in decimal. \<^verbatim>\<open>TARGET_FMT_lu\<close> and
  \<^verbatim>\<open>TARGET_FMT_lx\<close>, the target's decimal and hexadecimal formats of a
  \<^verbatim>\<open>target_ulong\<close>, and \<^verbatim>\<open>std::hash<target_ulong>\<close> are declared outside the plugin:
  they are the fields of the parameter record \<open>target\<close>.
\<close>

definition digit_char :: "nat \<Rightarrow> char" where
  "digit_char d = ''0123456789abcdef'' ! d"

function dec :: "nat \<Rightarrow> string" where
  "dec n = (if n < 10 then [digit_char n] else dec (n div 10) @ [digit_char (n mod 10)])"
  by pat_completeness auto
termination
  by (relation "measure id") auto

declare dec.simps [simp del]

function hex :: "nat \<Rightarrow> string" where
  "hex n = (if n < 16 then [digit_char n] else hex (n div 16) @ [digit_char (n mod 16)])"
  by pat_completeness auto
termination
  by (relation "measure id") auto

declare hex.simps [simp del]

definition fmt_lu :: "64 word \<Rightarrow> string" where
  "fmt_lu x = dec (unat x)"

definition LF :: char where
  "LF = CHR 0x0A"

record 'u target =
  std_hash :: "'u \<Rightarrow> size_t"
  TARGET_FMT_lu :: "'u \<Rightarrow> string"
  TARGET_FMT_lx :: "'u \<Rightarrow> string"

subsection \<open>The output stream and the plugin's state\<close>

text \<open>
  A \<^verbatim>\<open>FILE\<close> keeps its path, the buffering in effect since a successful
  \<^verbatim>\<open>setvbuf\<close> (\<open>None\<close>: the stream has the buffering it was opened with) and the
  bytes written to it. A stream is unbuffered, or fully buffered with a buffer of some
  number of bytes; \<^verbatim>\<open>_IOFBF\<close> and \<^verbatim>\<open>_IONBF\<close> are the modes a caller asks for. Using
  a null stream or a null thread, and a failed \<^verbatim>\<open>assert\<close>, end the run: they are the
  faults.
\<close>

datatype fault = Null_thread | Null_stream | Assert_failed

datatype buf_mode = IOFBF | IONBF

datatype buffering = Unbuffered | Fully_buffered nat

record FILE =
  f_path :: string
  f_vbuf :: "buffering option"
  f_out :: string

datatype dispatcher = Before_block_exec_process | Before_block_exec_asid

datatype message =
    Error_invalid_mode string
  | Error_buffer_size
  | Warning_no_os
  | Info_buffer_size "32 word"
  | Info_mode_process
  | Info_mode_asid

text \<open>
  The globals \<^verbatim>\<open>mode\<close> and \<^verbatim>\<open>coveragelog\<close>, the two static sets \<^verbatim>\<open>seen\<close>, and what
  the plugin leaves at the host: the registered callback, the messages it printed, the
  plugins it required and the files on disk (\<^verbatim>\<open>fopen\<close> with \<^verbatim>\<open>"w"\<close> truncates).
\<close>

record 'u plugin =
  mode :: coverage_mode
  coveragelog :: "FILE option"
  seen_process :: "'u RecordID list list"
  seen_asid :: "'u RecordID list list"
  registered :: "dispatcher option"
  console :: "message list"
  required :: "string list"
  fs :: "string \<Rightarrow> string option"

definition fprintf :: "FILE option \<Rightarrow> string \<Rightarrow> fault + FILE" where
  "fprintf stream s =
     (case stream of
        None \<Rightarrow> Inl Null_stream
      | Some f \<Rightarrow> Inr (f\<lparr>f_out := f_out f @ s\<rparr>))"

section \<open>The two dispatchers\<close>

text \<open>
  \<^verbatim>\<open>before_block_exec_process\<close> (lines 56 to 107). Line 69 guards the read of
  \<^verbatim>\<open>thread->pid\<close>; line 70 reads \<^verbatim>\<open>thread->tid\<close> with no guard.
\<close>

definition before_block_exec_process ::
  "('w::len) target_ulong target \<Rightarrow> 'w target_ulong CPUState \<Rightarrow> 'w target_ulong plugin \<Rightarrow>
   'w target_ulong CPUState \<Rightarrow> 'w target_ulong TranslationBlock \<Rightarrow>
   fault + (int \<times> 'w target_ulong plugin)" where
  "before_block_exec_process T first_cpu st cpu tb =
     (let thread = get_current_thread cpu;
          rid = \<lparr>pid_or_asid = (case thread of Some t \<Rightarrow> pid t | None \<Rightarrow> 0), pc = tb_pc tb\<rparr>
      in case thread of
           None \<Rightarrow> Inl Null_thread
         | Some t \<Rightarrow>
             (let tid = tid t
              in if \<not> us_find (std_hash T) (seen_process st) rid then
                   (let seen = us_insert (std_hash T) (seen_process st) rid;
                        in_kernel = panda_in_kernel first_cpu;
                        process_name =
                          (if \<not> in_kernel then
                             (case get_current_process first_cpu of
                                Some proc \<Rightarrow> name proc
                              | None \<Rightarrow> ''(unknown)'')
                           else ''(kernel)'')
                    in case fprintf (coveragelog st)
                              (process_name @ '','' @ TARGET_FMT_lu T (pid_or_asid rid) @ '','' @
                               TARGET_FMT_lu T tid @ '','' @ fmt_lu (of_bool in_kernel) @ '',0x'' @
                               TARGET_FMT_lx T (tb_pc tb) @ '','' @ fmt_lu (ucast (tb_size tb)) @ [LF]) of
                         Inl e \<Rightarrow> Inl e
                       | Inr f \<Rightarrow> Inr (0, st\<lparr>seen_process := seen, coveragelog := Some f\<rparr>))
                 else Inr (0, st)))"

text \<open>\<^verbatim>\<open>before_block_exec_asid\<close> (lines 109 to 130).\<close>

definition before_block_exec_asid ::
  "('w::len) target_ulong target \<Rightarrow> 'w target_ulong CPUState \<Rightarrow> 'w target_ulong plugin \<Rightarrow>
   'w target_ulong CPUState \<Rightarrow> 'w target_ulong TranslationBlock \<Rightarrow>
   fault + (int \<times> 'w target_ulong plugin)" where
  "before_block_exec_asid T first_cpu st cpu tb =
     (let rid = \<lparr>pid_or_asid = panda_current_asid first_cpu, pc = tb_pc tb\<rparr>
      in if \<not> us_find (std_hash T) (seen_asid st) rid then
           (let seen = us_insert (std_hash T) (seen_asid st) rid
            in case fprintf (coveragelog st)
                      (''0x'' @ TARGET_FMT_lx T (pid_or_asid rid) @ '','' @
                       fmt_lu (of_bool (panda_in_kernel first_cpu)) @ '',0x'' @
                       TARGET_FMT_lx T (tb_pc tb) @ '','' @ fmt_lu (ucast (tb_size tb)) @ [LF]) of
                 Inl e \<Rightarrow> Inl e
               | Inr f \<Rightarrow> Inr (0, st\<lparr>seen_asid := seen, coveragelog := Some f\<rparr>))
         else Inr (0, st))"

text \<open>
  The host calls the registered dispatcher before every block, with the executing CPU,
  the block and its global \<^verbatim>\<open>first_cpu\<close>; a fault ends the run.
\<close>

record 'u block_exec =
  ev_first_cpu :: "'u CPUState"
  ev_cpu :: "'u CPUState"
  ev_tb :: "'u TranslationBlock"

definition call_dispatcher ::
  "('w::len) target_ulong target \<Rightarrow> dispatcher \<Rightarrow> 'w target_ulong plugin \<Rightarrow>
   'w target_ulong block_exec \<Rightarrow> fault + (int \<times> 'w target_ulong plugin)" where
  "call_dispatcher T d st e =
     (case d of
        Before_block_exec_process \<Rightarrow>
          before_block_exec_process T (ev_first_cpu e) st (ev_cpu e) (ev_tb e)
      | Before_block_exec_asid \<Rightarrow>
          before_block_exec_asid T (ev_first_cpu e) st (ev_cpu e) (ev_tb e))"

fun run_blocks ::
  "('w::len) target_ulong target \<Rightarrow> dispatcher \<Rightarrow> 'w target_ulong plugin \<Rightarrow>
   'w target_ulong block_exec list \<Rightarrow> fault + 'w target_ulong plugin" where
  "run_blocks T d st [] = Inr st"
| "run_blocks T d st (e # es) =
     (case call_dispatcher T d st e of
        Inl x \<Rightarrow> Inl x
      | Inr (r, st') \<Rightarrow> run_blocks T d st' es)"


section \<open>Startup: \<^verbatim>\<open>init_plugin\<close>\<close>

text \<open>
  What \<^verbatim>\<open>init_plugin\<close> gets from outside: the three arguments of the plugin as the host
  parsed them (\<open>None\<close>: not given), the OS family of the run, the constant
  \<^verbatim>\<open>BUFSIZ\<close> of the C library, and what the calls it makes answer: whether
  \<^verbatim>\<open>init_osi_api\<close> succeeds, whether \<^verbatim>\<open>fopen\<close> can open a path for writing, the
  return code of \<^verbatim>\<open>setvbuf\<close>, and the number of bytes of the buffer that the library
  allocates itself when \<^verbatim>\<open>setvbuf\<close> is given no buffer and a requested size. The C
  standard lets the library use the requested size or not: the GNU library ignores it.
\<close>

datatype os_family = OS_UNKNOWN | OS_WINDOWS | OS_LINUX | OS_FREEBSD

record startup =
  arg_filename :: "string option"
  arg_mode :: "string option"
  arg_buffer_size :: "32 word option"
  panda_os_familyno :: os_family
  BUFSIZ :: "32 word"
  init_osi_api :: bool
  fopen_ok :: "string \<Rightarrow> bool"
  setvbuf_ret :: int
  libc_buffer_size :: "32 word \<Rightarrow> nat"

text \<open>
  Modelled from the spec: the host's argument parsers \<^verbatim>\<open>panda_parse_string\<close>,
  \<^verbatim>\<open>panda_parse_string_opt\<close> and \<^verbatim>\<open>panda_parse_uint32_opt\<close> are not in the plugin's
  file. Each returns the value given for the option and the default when the option is
  not given (section 6, the table of the startup configuration).
\<close>

definition panda_parse_string :: "string option \<Rightarrow> string \<Rightarrow> string" where
  "panda_parse_string arg defaultval = (case arg of None \<Rightarrow> defaultval | Some v \<Rightarrow> v)"

definition panda_parse_string_opt :: "string option \<Rightarrow> string \<Rightarrow> string" where
  "panda_parse_string_opt arg defaultval = (case arg of None \<Rightarrow> defaultval | Some v \<Rightarrow> v)"

definition panda_parse_uint32_opt :: "32 word option \<Rightarrow> 32 word \<Rightarrow> 32 word" where
  "panda_parse_uint32_opt arg defaultval = (case arg of None \<Rightarrow> defaultval | Some v \<Rightarrow> v)"

text \<open>
  The C library: \<^verbatim>\<open>fopen(filename, "w")\<close> gives a fresh stream on the emptied file, or
  the null pointer. \<^verbatim>\<open>setvbuf(stream, buf, mode, size)\<close> on a null stream is a fault; on
  a stream, when it returns 0, \<^verbatim>\<open>_IONBF\<close> makes the stream unbuffered and \<^verbatim>\<open>_IOFBF\<close>
  makes it fully buffered, with the caller's array of \<open>size\<close> bytes when \<open>buf\<close> is
  one, and with a buffer that the library allocates, of the size the library chooses,
  when \<open>buf\<close> is the null pointer.
\<close>

definition fopen_w :: "startup \<Rightarrow> string \<Rightarrow> 'u plugin \<Rightarrow> FILE option \<times> 'u plugin" where
  "fopen_w E filename st =
     (if fopen_ok E filename
      then (Some \<lparr>f_path = filename, f_vbuf = None, f_out = []\<rparr>,
            st\<lparr>fs := (fs st)(filename \<mapsto> [])\<rparr>)
      else (None, st))"

definition setvbuf ::
  "startup \<Rightarrow> FILE option \<Rightarrow> string option \<Rightarrow> buf_mode \<Rightarrow> 32 word \<Rightarrow> fault + (int \<times> FILE)" where
  "setvbuf E stream buf m sz =
     (case stream of
        None \<Rightarrow> Inl Null_stream
      | Some f \<Rightarrow>
          if setvbuf_ret E = 0 then
            Inr (0, f\<lparr>f_vbuf :=
                       Some (case m of
                               IONBF \<Rightarrow> Unbuffered
                             | IOFBF \<Rightarrow>
                                 Fully_buffered
                                   (case buf of
                                      None \<Rightarrow> libc_buffer_size E sz
                                    | Some b \<Rightarrow> unat sz))\<rparr>)
          else Inr (setvbuf_ret E, f))"

definition say :: "message \<Rightarrow> 'u plugin \<Rightarrow> 'u plugin" where
  "say m st = st\<lparr>console := console st @ [m]\<rparr>"

text \<open>Lines 145 to 160: the mode argument, its default, and the check of its value.\<close>

definition init_plugin_mode :: "startup \<Rightarrow> 'u plugin \<Rightarrow> bool \<times> 'u plugin" where
  "init_plugin_mode E st =
     (let mode_arg =
            (if OS_UNKNOWN = panda_os_familyno E
             then panda_parse_string_opt (arg_mode E) ''asid''
             else panda_parse_string_opt (arg_mode E) ''process'')
      in if mode_arg = ''asid'' then (True, st\<lparr>mode := MODE_ASID\<rparr>)
         else if mode_arg = ''process'' then (True, st\<lparr>mode := MODE_PROCESS\<rparr>)
         else (False, say (Error_invalid_mode mode_arg) st))"

text \<open>Lines 168 to 179: process mode needs an OS; without one the mode becomes asid.\<close>

definition init_plugin_osi :: "startup \<Rightarrow> 'u plugin \<Rightarrow> fault + 'u plugin" where
  "init_plugin_osi E st =
     (if MODE_PROCESS = mode st then
        (if OS_UNKNOWN = panda_os_familyno E
         then Inr ((say Warning_no_os st)\<lparr>mode := MODE_ASID\<rparr>)
         else (let st1 = (say Info_mode_process st)\<lparr>required := required st @ [''osi'']\<rparr>
               in if init_osi_api E then Inr st1 else Inl Assert_failed))
      else Inr (say Info_mode_asid st))"

text \<open>
  Lines 183 to 196: the file is opened and its result is not tested; the buffering is
  changed only when the size differs from \<^verbatim>\<open>BUFSIZ\<close>, and then \<^verbatim>\<open>setvbuf\<close> gets the
  null pointer for its buffer (line 191).
\<close>

definition init_plugin_open ::
  "startup \<Rightarrow> string \<Rightarrow> 32 word \<Rightarrow> 'u plugin \<Rightarrow> fault + (bool \<times> 'u plugin)" where
  "init_plugin_open E filename buffer_size st =
     (let (stream, st1) = fopen_w E filename st;
          st2 = st1\<lparr>coveragelog := stream\<rparr>
      in if BUFSIZ E \<noteq> buffer_size then
           (let buf_mode = (if 0 = buffer_size then IONBF else IOFBF)
            in case setvbuf E (coveragelog st2) None buf_mode buffer_size of
                 Inl x \<Rightarrow> Inl x
               | Inr (ret_code, f) \<Rightarrow>
                   if 0 \<noteq> ret_code
                   then Inr (False, say Error_buffer_size (st2\<lparr>coveragelog := Some f\<rparr>))
                   else Inr (True, st2\<lparr>coveragelog := Some f\<rparr>))
         else Inr (True, st2))"

text \<open>Lines 197 to 211: the two header lines, then the callback.\<close>

definition init_plugin_header :: "'u plugin \<Rightarrow> fault + (bool \<times> 'u plugin)" where
  "init_plugin_header st =
     (if MODE_PROCESS = mode st then
        (case fprintf (coveragelog st) (''process'' @ [LF]) of
           Inl x \<Rightarrow> Inl x
         | Inr f1 \<Rightarrow>
             (case fprintf (Some f1)
                     (''process name,process id,thread id,in kernel,block address,block size'' @ [LF]) of
                Inl x \<Rightarrow> Inl x
              | Inr f2 \<Rightarrow>
                  Inr (True, st\<lparr>coveragelog := Some f2,
                                 registered := Some Before_block_exec_process\<rparr>)))
      else
        (case fprintf (coveragelog st) (''asid'' @ [LF]) of
           Inl x \<Rightarrow> Inl x
         | Inr f1 \<Rightarrow>
             (case fprintf (Some f1) (''asid,in kernel,block address,block size'' @ [LF]) of
                Inl x \<Rightarrow> Inl x
              | Inr f2 \<Rightarrow>
                  Inr (True, st\<lparr>coveragelog := Some f2,
                                 registered := Some Before_block_exec_asid\<rparr>))))"

text \<open>\<^verbatim>\<open>init_plugin\<close> (lines 138 to 212).\<close>

definition init_plugin :: "startup \<Rightarrow> 'u plugin \<Rightarrow> fault + (bool \<times> 'u plugin)" where
  "init_plugin E st =
     (let filename = panda_parse_string (arg_filename E) ''coverage.csv''
      in case init_plugin_mode E st of
           (False, st1) \<Rightarrow> Inr (False, st1)
         | (True, st1) \<Rightarrow>
             (let buffer_size = panda_parse_uint32_opt (arg_buffer_size E) (BUFSIZ E);
                  st2 = say (Info_buffer_size buffer_size) st1
              in case init_plugin_osi E st2 of
                   Inl x \<Rightarrow> Inl x
                 | Inr st3 \<Rightarrow>
                     (case init_plugin_open E filename buffer_size st3 of
                        Inl x \<Rightarrow> Inl x
                      | Inr (False, st4) \<Rightarrow> Inr (False, st4)
                      | Inr (True, st4) \<Rightarrow> init_plugin_header st4)))"

text \<open>\<^verbatim>\<open>uninit_plugin\<close> (lines 214 to 218): the stream is closed and its bytes are the file.\<close>

definition uninit_plugin :: "'u plugin \<Rightarrow> fault + 'u plugin" where
  "uninit_plugin st =
     (case coveragelog st of
        None \<Rightarrow> Inl Null_stream
      | Some f \<Rightarrow> Inr (st\<lparr>fs := (fs st)(f_path f \<mapsto> f_out f), coveragelog := None\<rparr>))"

text \<open>The plugin before \<^verbatim>\<open>init_plugin\<close>: the globals as the file initialises them.\<close>

definition plugin_loaded :: "nat \<Rightarrow> (string \<Rightarrow> string option) \<Rightarrow> ('w::len) target_ulong plugin" where
  "plugin_loaded n files =
     \<lparr>mode = MODE_ASID, coveragelog = None, seen_process = us_empty n,
      seen_asid = us_empty n, registered = None, console = [], required = [],
      fs = files\<rparr>"


section \<open>Vocabulary of the properties\<close>

text \<open>The bytes written to the output stream so far.\<close>

definition written :: "'u plugin \<Rightarrow> string" where
  "written st = (case coveragelog st of None \<Rightarrow> [] | Some f \<Rightarrow> f_out f)"

text \<open>The static set of a dispatcher, and whether the thread lookup of an event succeeds.\<close>

definition seen_of :: "dispatcher \<Rightarrow> 'u plugin \<Rightarrow> 'u RecordID list list" where
  "seen_of d st =
     (case d of
        Before_block_exec_process \<Rightarrow> seen_process st
      | Before_block_exec_asid \<Rightarrow> seen_asid st)"

definition resolved :: "dispatcher \<Rightarrow> 'u block_exec \<Rightarrow> bool" where
  "resolved d e =
     (case d of
        Before_block_exec_process \<Rightarrow> get_current_thread (ev_cpu e) \<noteq> None
      | Before_block_exec_asid \<Rightarrow> True)"

text \<open>
  The specification's side of an event: its identity key (sections 4.3 and 4.4, steps 2
  and 3), the label of its process (4.3, step 4), and the record it is logged with
  (4.3, step 5, and 4.4, step 3). The specification gives no thread id for an event
  without a thread, so there is no record for one.
\<close>

definition event_key :: "dispatcher \<Rightarrow> ('w::len) target_ulong block_exec \<Rightarrow> 'w target_ulong RecordID" where
  "event_key d e =
     (case d of
        Before_block_exec_process \<Rightarrow>
          \<lparr>pid_or_asid = (case get_current_thread (ev_cpu e) of None \<Rightarrow> 0 | Some t \<Rightarrow> pid t),
           pc = tb_pc (ev_tb e)\<rparr>
      | Before_block_exec_asid \<Rightarrow>
          \<lparr>pid_or_asid = panda_current_asid (ev_first_cpu e), pc = tb_pc (ev_tb e)\<rparr>)"

definition event_name :: "'u block_exec \<Rightarrow> string" where
  "event_name e =
     (if panda_in_kernel (ev_first_cpu e) then ''(kernel)''
      else case get_current_process (ev_first_cpu e) of
             Some p \<Rightarrow> name p
           | None \<Rightarrow> ''(unknown)'')"

definition event_row ::
  "('w::len) target_ulong target \<Rightarrow> dispatcher \<Rightarrow> 'w target_ulong block_exec \<Rightarrow> string" where
  "event_row T d e =
     (case d of
        Before_block_exec_process \<Rightarrow>
          (case get_current_thread (ev_cpu e) of
             None \<Rightarrow> []
           | Some t \<Rightarrow>
               event_name e @ '','' @ TARGET_FMT_lu T (pid t) @ '','' @
               TARGET_FMT_lu T (tid t) @ '','' @
               (if panda_in_kernel (ev_first_cpu e) then ''1'' else ''0'') @ '',0x'' @
               TARGET_FMT_lx T (tb_pc (ev_tb e)) @ '','' @ dec (unat (tb_size (ev_tb e))) @ [LF])
      | Before_block_exec_asid \<Rightarrow>
          ''0x'' @ TARGET_FMT_lx T (panda_current_asid (ev_first_cpu e)) @ '','' @
          (if panda_in_kernel (ev_first_cpu e) then ''1'' else ''0'') @ '',0x'' @
          TARGET_FMT_lx T (tb_pc (ev_tb e)) @ '','' @ dec (unat (tb_size (ev_tb e))) @ [LF])"

text \<open>
  Exact deduplication as the specification words it: an event is kept when no key already
  seen equals its key field by field. The hash plays no part.
\<close>

fun first_seen ::
  "('e \<Rightarrow> 'w target_ulong RecordID) \<Rightarrow> 'w target_ulong RecordID list \<Rightarrow> 'e list \<Rightarrow> 'e list" where
  "first_seen key seen [] = []"
| "first_seen key seen (e # es) =
     (if list_ex (\<lambda>k. RecordID_eq k (key e)) seen then first_seen key seen es
      else e # first_seen key (key e # seen) es)"

text \<open>
  The invariant of the hash table: there is a bucket, and every key is in the bucket its
  hash selects.
\<close>

definition us_inv :: "(('w::len) target_ulong \<Rightarrow> size_t) \<Rightarrow> 'w unordered_set \<Rightarrow> bool" where
  "us_inv h bs \<longleftrightarrow>
     0 < length bs \<and> (\<forall>i<length bs. \<forall>k\<in>set (bs ! i). us_bucket h bs k = i)"

section \<open>Concrete runs\<close>

text \<open>
  A 64-bit target whose word hash is the identity and whose formats print without
  padding, user-mode CPUs, and the two scenarios of section 8 of the specification.
  The startup \<open>startup_linux\<close> has a C library that, like the GNU one, allocates a
  buffer of 4096 bytes whatever size \<^verbatim>\<open>setvbuf\<close> is asked for.
\<close>

definition target64 :: "64 word target" where
  "target64 =
     \<lparr>std_hash = (\<lambda>x. x), TARGET_FMT_lu = (\<lambda>x. dec (unat x)),
      TARGET_FMT_lx = (\<lambda>x. hex (unat x))\<rparr>"

definition user_cpu :: "64 word \<Rightarrow> OsiProc option \<Rightarrow> 64 word \<Rightarrow> 64 word CPUState" where
  "user_cpu p proc a =
     \<lparr>get_current_thread = Some \<lparr>pid = p, tid = 7\<rparr>, get_current_process = proc,
      panda_in_kernel = False, panda_current_asid = a\<rparr>"

definition lost_cpu :: "64 word CPUState" where
  "lost_cpu =
     \<lparr>get_current_thread = None, get_current_process = None,
      panda_in_kernel = False, panda_current_asid = 0xAA\<rparr>"

definition block_event :: "64 word CPUState \<Rightarrow> 64 word \<Rightarrow> 16 word \<Rightarrow> 64 word block_exec" where
  "block_event c a sz = \<lparr>ev_first_cpu = c, ev_cpu = c, ev_tb = \<lparr>tb_pc = a, tb_size = sz\<rparr>\<rparr>"

definition scenario_process :: "64 word block_exec list" where
  "scenario_process =
     [block_event (user_cpu 10 (Some \<lparr>name = ''app''\<rparr>) 0xAA) 0x1000 4,
      block_event (user_cpu 10 (Some \<lparr>name = ''app''\<rparr>) 0xAA) 0x1000 4,
      block_event (user_cpu 10 (Some \<lparr>name = ''app''\<rparr>) 0xAA) 0x2000 8,
      block_event (user_cpu 20 (Some \<lparr>name = ''other''\<rparr>) 0xBB) 0x1000 4]"

text \<open>
  A process-mode run in which the thread lookup fails for the first two blocks, both at
  address \<open>0x1000\<close>: the specification gives both the key \<open>(0, 0x1000)\<close>.
\<close>

definition scenario_lost :: "64 word block_exec list" where
  "scenario_lost =
     block_event lost_cpu 0x1000 4 # block_event lost_cpu 0x1000 4 # scenario_process"

text \<open>
  Two asid-mode events whose keys \<open>(0, 1)\<close> and \<open>(2, 0)\<close> differ and have the same hash
  under the identity hash of words: \<open>0 XOR (1 << 1) = 2 XOR (0 << 1)\<close>.
\<close>

definition collision_a :: "64 word block_exec" where
  "collision_a = block_event (user_cpu 10 None 0) 1 4"

definition collision_b :: "64 word block_exec" where
  "collision_b = block_event (user_cpu 10 None 2) 0 4"

definition plugin_started :: "nat \<Rightarrow> 64 word plugin" where
  "plugin_started n =
     (plugin_loaded n Map.empty)
       \<lparr>coveragelog := Some \<lparr>f_path = ''coverage.csv'', f_vbuf = None, f_out = []\<rparr>\<rparr>"

definition startup_linux :: startup where
  "startup_linux =
     \<lparr>arg_filename = None, arg_mode = None, arg_buffer_size = None,
      panda_os_familyno = OS_LINUX, BUFSIZ = 8192, init_osi_api = True,
      fopen_ok = (\<lambda>path. True), setvbuf_ret = 0, libc_buffer_size = (\<lambda>sz. 4096)\<rparr>"

definition startup_no_os :: startup where
  "startup_no_os = startup_linux\<lparr>arg_mode := Some ''process'', panda_os_familyno := OS_UNKNOWN\<rparr>"

definition startup_unwritable :: startup where
  "startup_unwritable = startup_linux\<lparr>fopen_ok := (\<lambda>path. False)\<rparr>"

section \<open>The seen-set decides membership by equality\<close>

lemma RecordID_eq_iff: "RecordID_eq a b \<longleftrightarrow> a = b"
  by (cases a; cases b) (simp add: RecordID_eq_def)

lemma bucket_find_iff: "bucket_find xs k \<longleftrightarrow> k \<in> set xs"
  by (induction xs) (auto simp: RecordID_eq_iff)

lemma us_bucket_less: "0 < length bs \<Longrightarrow> us_bucket h bs k < length bs"
  by (simp add: us_bucket_def)

lemma us_bucket_update: "us_bucket h (bs[j := xs]) k = us_bucket h bs k"
  by (simp add: us_bucket_def)

lemma us_find_iff:
  assumes "us_inv h bs"
  shows "us_find h bs k \<longleftrightarrow> k \<in> set (concat bs)"
proof
  assume "us_find h bs k"
  then have "k \<in> set (bs ! us_bucket h bs k)"
    by (simp add: us_find_def bucket_find_iff)
  moreover have "us_bucket h bs k < length bs"
    using assms by (simp add: us_inv_def us_bucket_less)
  ultimately show "k \<in> set (concat bs)"
    by (auto intro: nth_mem)
next
  assume "k \<in> set (concat bs)"
  then obtain xs where xs: "xs \<in> set bs" "k \<in> set xs"
    by auto
  then obtain i where i: "i < length bs" "bs ! i = xs"
    by (auto simp: in_set_conv_nth)
  with xs assms have "us_bucket h bs k = i"
    by (auto simp: us_inv_def)
  with i xs show "us_find h bs k"
    by (simp add: us_find_def bucket_find_iff)
qed

lemma us_inv_empty: "0 < n \<Longrightarrow> us_inv h (us_empty n)"
  by (simp add: us_inv_def us_empty_def)

lemma concat_us_empty: "concat (us_empty n) = []"
  by (simp add: us_empty_def)

lemma set_concat_cons_update:
  "j < length bs \<Longrightarrow> set (concat (bs[j := k # bs ! j])) = insert k (set (concat bs))"
proof (induction bs arbitrary: j)
  case Nil
  then show ?case by simp
next
  case (Cons b bs)
  then show ?case by (cases j) auto
qed

lemma us_keys_insert:
  assumes "us_inv h bs"
  shows "set (concat (us_insert h bs k)) = insert k (set (concat bs))"
proof (cases "us_find h bs k")
  case True
  with assms show ?thesis
    by (auto simp: us_insert_def us_find_iff)
next
  case False
  moreover have "us_bucket h bs k < length bs"
    using assms by (simp add: us_inv_def us_bucket_less)
  ultimately show ?thesis
    using set_concat_cons_update [of "us_bucket h bs k" bs k]
    by (simp add: us_insert_def)
qed

lemma us_inv_insert:
  assumes "us_inv h bs"
  shows "us_inv h (us_insert h bs k)"
proof (cases "us_find h bs k")
  case True
  with assms show ?thesis by (simp add: us_insert_def)
next
  case False
  have "us_bucket h (bs[us_bucket h bs k := k # bs ! us_bucket h bs k]) k' = i"
    if "i < length bs" "k' \<in> set (bs[us_bucket h bs k := k # bs ! us_bucket h bs k] ! i)" for i k'
  proof (cases "i = us_bucket h bs k")
    case True
    with that assms show ?thesis
      by (auto simp: us_bucket_update us_inv_def)
  next
    case False
    with that assms show ?thesis
      by (auto simp: us_bucket_update us_inv_def)
  qed
  with False assms show ?thesis
    by (simp add: us_insert_def us_inv_def)
qed

section \<open>One call of a dispatcher, and a run of calls\<close>

lemma fmt_lu_of_bool: "fmt_lu (of_bool b) = (if b then ''1'' else ''0'')"
  by (simp add: fmt_lu_def dec.simps digit_char_def)

lemma fmt_lu_ucast16: "fmt_lu (ucast (x :: 16 word)) = dec (unat x)"
proof -
  have "unat x < 2 ^ 16"
    using unsigned_less [of x] by simp
  then have "unat x < 2 ^ 64"
    by simp
  then have "unat (ucast x :: 64 word) = unat x"
    by (simp add: unsigned_ucast_eq take_bit_nat_eq_self)
  then show ?thesis
    by (simp add: fmt_lu_def)
qed

lemma call_dispatcher_step:
  assumes "coveragelog st = Some f" and "resolved d e" and "us_inv (std_hash T) (seen_of d st)"
  shows "\<exists>st'. call_dispatcher T d st e = Inr (0, st') \<and> coveragelog st' \<noteq> None \<and>
           us_inv (std_hash T) (seen_of d st') \<and>
           set (concat (seen_of d st')) = insert (event_key d e) (set (concat (seen_of d st))) \<and>
           written st' =
             written st @
             (if event_key d e \<in> set (concat (seen_of d st)) then [] else event_row T d e)"
proof (cases d)
  case Before_block_exec_process
  from assms(2) obtain t where t: "get_current_thread (ev_cpu e) = Some t"
    by (auto simp: resolved_def Before_block_exec_process)
  have inv: "us_inv (std_hash T) (seen_process st)"
    using assms(3) by (simp add: seen_of_def Before_block_exec_process)
  show ?thesis
    using assms(1) t inv us_find_iff [OF inv] us_keys_insert [OF inv] us_inv_insert [OF inv]
    by (auto simp: Before_block_exec_process call_dispatcher_def before_block_exec_process_def
        fprintf_def seen_of_def event_key_def event_row_def event_name_def written_def Let_def
        fmt_lu_of_bool fmt_lu_ucast16 split: option.splits)
next
  case Before_block_exec_asid
  have inv: "us_inv (std_hash T) (seen_asid st)"
    using assms(3) by (simp add: seen_of_def Before_block_exec_asid)
  show ?thesis
    using assms(1) inv us_find_iff [OF inv] us_keys_insert [OF inv] us_inv_insert [OF inv]
    by (auto simp: Before_block_exec_asid call_dispatcher_def before_block_exec_asid_def
        fprintf_def seen_of_def event_key_def event_row_def written_def Let_def
        fmt_lu_of_bool fmt_lu_ucast16)
qed

lemma run_blocks_append:
  "run_blocks T d st (xs @ ys) =
     (case run_blocks T d st xs of Inl x \<Rightarrow> Inl x | Inr st' \<Rightarrow> run_blocks T d st' ys)"
  by (induction xs arbitrary: st) (auto split: sum.splits prod.splits)

lemma first_seen_Cons:
  "first_seen key ks (e # es) =
     (if key e \<in> set ks then first_seen key ks es else e # first_seen key (key e # ks) es)"
  by (auto simp: first_seen.simps list_ex_iff RecordID_eq_iff)

declare first_seen.simps(2) [simp del] first_seen_Cons [simp]

lemma run_blocks_first_seen:
  assumes "coveragelog st = Some f"
    and "\<forall>e\<in>set evs. resolved d e"
    and "us_inv (std_hash T) (seen_of d st)"
    and "set ks = set (concat (seen_of d st))"
  shows "\<exists>st'. run_blocks T d st evs = Inr st' \<and> coveragelog st' \<noteq> None \<and>
           us_inv (std_hash T) (seen_of d st') \<and>
           set (concat (seen_of d st')) = set (concat (seen_of d st)) \<union> event_key d ` set evs \<and>
           written st' = written st @ concat (map (event_row T d) (first_seen (event_key d) ks evs))"
  using assms
proof (induction evs arbitrary: st f ks)
  case Nil
  then show ?case by simp
next
  case (Cons e es)
  from Cons.prems have "resolved d e"
    by simp
  from call_dispatcher_step [OF Cons.prems(1) this Cons.prems(3)]
  obtain st1 where st1: "call_dispatcher T d st e = Inr (0, st1)" "coveragelog st1 \<noteq> None"
    "us_inv (std_hash T) (seen_of d st1)"
    "set (concat (seen_of d st1)) = insert (event_key d e) (set (concat (seen_of d st)))"
    "written st1 =
       written st @ (if event_key d e \<in> set (concat (seen_of d st)) then [] else event_row T d e)"
    by blast
  from st1(2) obtain f1 where f1: "coveragelog st1 = Some f1"
    by auto
  define ks1 where "ks1 = (if event_key d e \<in> set ks then ks else event_key d e # ks)"
  have ks1: "set ks1 = set (concat (seen_of d st1))"
    using st1(4) Cons.prems(4) by (auto simp: ks1_def)
  have res: "\<forall>e\<in>set es. resolved d e"
    using Cons.prems(2) by simp
  from Cons.IH [OF f1 res st1(3) ks1]
  obtain st2 where st2: "run_blocks T d st1 es = Inr st2" "coveragelog st2 \<noteq> None"
    "us_inv (std_hash T) (seen_of d st2)"
    "set (concat (seen_of d st2)) = set (concat (seen_of d st1)) \<union> event_key d ` set es"
    "written st2 = written st1 @ concat (map (event_row T d) (first_seen (event_key d) ks1 es))"
    by blast
  have "run_blocks T d st (e # es) = Inr st2"
    using st1(1) st2(1) by simp
  moreover have "set (concat (seen_of d st2)) =
      set (concat (seen_of d st)) \<union> event_key d ` set (e # es)"
    using st2(4) st1(4) by auto
  moreover have "written st2 =
      written st @ concat (map (event_row T d) (first_seen (event_key d) ks (e # es)))"
    using st2(5) st1(5) Cons.prems(4) by (simp add: ks1_def)
  ultimately show ?case
    using st2(2,3) by blast
qed

lemma first_seen_known:
  "k \<in> set ks \<Longrightarrow> filter (\<lambda>e. key e = k) (first_seen key ks xs) = []"
  by (induction xs arbitrary: ks) auto

lemma first_seen_count:
  "k \<notin> set ks \<Longrightarrow>
   length (filter (\<lambda>e. key e = k) (first_seen key ks xs)) = (if k \<in> key ` set xs then 1 else 0)"
proof (induction xs arbitrary: ks)
  case Nil
  then show ?case by simp
next
  case (Cons x xs)
  show ?case
  proof (cases "key x = k")
    case True
    with Cons.prems show ?thesis
      by (simp add: first_seen_known)
  next
    case False
    with Cons show ?thesis
      by auto
  qed
qed


section \<open>Deduplication\<close>

text \<open>
  Runs in which no call faults: asid mode, and process mode when every thread lookup
  succeeds (\<open>d\<close> is either dispatcher). In a run that starts with an open output stream
  and an empty seen-set, the call for the \<open>i\<close>-th event appends the record of that
  event when no earlier event of the run has its key, and appends nothing when one has:
  a pair that occurs several times, however interleaved with others, is logged once, at
  its first occurrence.
\<close>

theorem dedup_first_occurrence_only:
  assumes "coveragelog st = Some f" and "seen_of d st = us_empty n" and "0 < n"
    and "\<forall>e\<in>set evs. resolved d e" and "i < length evs"
  shows "\<exists>s1 s2. run_blocks T d st (take i evs) = Inr s1 \<and>
           run_blocks T d st (take (Suc i) evs) = Inr s2 \<and>
           written s2 =
             written s1 @
             (if event_key d (evs ! i) \<in> event_key d ` set (take i evs) then []
              else event_row T d (evs ! i))"
proof -
  have inv: "us_inv (std_hash T) (seen_of d st)"
    using assms(2,3) by (simp add: us_inv_empty)
  have ks: "set [] = set (concat (seen_of d st))"
    using assms(2) by (simp add: concat_us_empty)
  have res: "\<forall>e\<in>set (take i evs). resolved d e"
    using assms(4) by (auto dest: in_set_takeD)
  from run_blocks_first_seen [OF assms(1) res inv ks]
  obtain s1 where s1: "run_blocks T d st (take i evs) = Inr s1" "coveragelog s1 \<noteq> None"
    "us_inv (std_hash T) (seen_of d s1)"
    "set (concat (seen_of d s1)) = set (concat (seen_of d st)) \<union> event_key d ` set (take i evs)"
    by blast
  from s1(2) obtain f1 where f1: "coveragelog s1 = Some f1"
    by auto
  have "resolved d (evs ! i)"
    using assms(4,5) by simp
  from call_dispatcher_step [OF f1 this s1(3)]
  obtain s2 where s2: "call_dispatcher T d s1 (evs ! i) = Inr (0, s2)"
    "written s2 =
       written s1 @
       (if event_key d (evs ! i) \<in> set (concat (seen_of d s1)) then [] else event_row T d (evs ! i))"
    by blast
  have "take (Suc i) evs = take i evs @ [evs ! i]"
    using assms(5) by (simp add: take_Suc_conv_app_nth)
  then have "run_blocks T d st (take (Suc i) evs) = Inr s2"
    using s1(1) s2(1) by (simp add: run_blocks_append)
  moreover have "set (concat (seen_of d s1)) = event_key d ` set (take i evs)"
    using s1(4) assms(2) by (simp add: concat_us_empty)
  ultimately show ?thesis
    using s1(1) s2(2) by auto
qed

theorem dedup_first_occurrence_only_witness:
  "coveragelog (plugin_started 4) = Some \<lparr>f_path = ''coverage.csv'', f_vbuf = None, f_out = []\<rparr> \<and>
   seen_of Before_block_exec_process (plugin_started 4) = us_empty 4 \<and>
   list_all (resolved Before_block_exec_process) scenario_process \<and>
   1 < length scenario_process \<and>
   (\<exists>s1 s2. run_blocks target64 Before_block_exec_process (plugin_started 4)
               (take 1 scenario_process) = Inr s1 \<and>
            run_blocks target64 Before_block_exec_process (plugin_started 4)
               (take (Suc 1) scenario_process) = Inr s2 \<and>
            written s2 = written s1)"
proof -
  have h1: "coveragelog (plugin_started 4) =
      Some \<lparr>f_path = ''coverage.csv'', f_vbuf = None, f_out = []\<rparr>"
    by (simp add: plugin_started_def plugin_loaded_def)
  have h2: "seen_of Before_block_exec_process (plugin_started 4) = us_empty 4"
    by (simp add: plugin_started_def plugin_loaded_def seen_of_def)
  have h3: "(0::nat) < 4"
    by simp
  have h4: "\<forall>e\<in>set scenario_process. resolved Before_block_exec_process e"
    by (simp add: scenario_process_def resolved_def block_event_def user_cpu_def)
  have h5: "1 < length scenario_process"
    by (simp add: scenario_process_def)
  have again: "event_key Before_block_exec_process (scenario_process ! 1) \<in>
      event_key Before_block_exec_process ` set (take 1 scenario_process)"
    by (simp add: scenario_process_def event_key_def block_event_def user_cpu_def)
  from dedup_first_occurrence_only [OF h1 h2 h3 h4 h5, of target64] again
  have "\<exists>s1 s2. run_blocks target64 Before_block_exec_process (plugin_started 4)
               (take 1 scenario_process) = Inr s1 \<and>
            run_blocks target64 Before_block_exec_process (plugin_started 4)
               (take (Suc 1) scenario_process) = Inr s2 \<and>
            written s2 = written s1"
    by simp
  with h1 h2 h4 h5 show ?thesis
    by (simp add: list_all_iff)
qed

text \<open>
  Claim C1. Deduplication is to be idempotent for every sequence of block events, in
  process mode and in asid mode: each pair of a context id and a program counter gets
  exactly one record, at its first occurrence. In process mode an event without a
  current thread has the context id 0, so the pair \<open>(0, 0x1000)\<close> that occurs twice at
  the start of this run is to get one record. The dispatcher builds that key (line 69)
  and then reads \<^verbatim>\<open>thread->tid\<close> through the null pointer (line 70): the run faults at
  the first event, and neither that pair nor any pair after it is recorded.
\<close>

theorem dedup_null_thread_faults:
  "run_blocks target64 Before_block_exec_process (plugin_started 2) scenario_lost =
     Inl Null_thread"
  by (simp add: scenario_lost_def block_event_def lost_cpu_def call_dispatcher_def
      before_block_exec_process_def)

text \<open>
  Claim C10. Deduplication is exact. Whatever the hash of words is, the rows written by
  a run are the records of the events that exact deduplication by field-wise equality
  keeps, in order; and when two events of the run have different keys with the same
  hash, each of the two keys is kept exactly once: the collision suppresses no
  first-seen record and duplicates none.
\<close>

theorem dedup_exact_under_collision:
  assumes "coveragelog st = Some f" and "seen_of d st = us_empty n" and "0 < n"
    and "\<forall>e\<in>set evs. resolved d e"
    and "a \<in> set evs" and "b \<in> set evs"
    and "event_key d a \<noteq> event_key d b"
    and "hash_RecordID (std_hash T) (event_key d a) = hash_RecordID (std_hash T) (event_key d b)"
  shows "\<exists>st'. run_blocks T d st evs = Inr st' \<and>
           written st' =
             written st @ concat (map (event_row T d) (first_seen (event_key d) [] evs)) \<and>
           length (filter (\<lambda>e. event_key d e = event_key d a) (first_seen (event_key d) [] evs)) = 1 \<and>
           length (filter (\<lambda>e. event_key d e = event_key d b) (first_seen (event_key d) [] evs)) = 1"
proof -
  have inv: "us_inv (std_hash T) (seen_of d st)"
    using assms(2,3) by (simp add: us_inv_empty)
  have ks: "set [] = set (concat (seen_of d st))"
    using assms(2) by (simp add: concat_us_empty)
  from run_blocks_first_seen [OF assms(1,4) inv ks]
  obtain st' where "run_blocks T d st evs = Inr st'"
    "written st' = written st @ concat (map (event_row T d) (first_seen (event_key d) [] evs))"
    by blast
  moreover have "length (filter (\<lambda>e. event_key d e = event_key d a)
      (first_seen (event_key d) [] evs)) = 1"
    using assms(5) first_seen_count [of "event_key d a" "[]" "event_key d" evs] by simp
  moreover have "length (filter (\<lambda>e. event_key d e = event_key d b)
      (first_seen (event_key d) [] evs)) = 1"
    using assms(6) first_seen_count [of "event_key d b" "[]" "event_key d" evs] by simp
  ultimately show ?thesis
    by blast
qed

theorem dedup_exact_under_collision_witness:
  "event_key Before_block_exec_asid collision_a \<noteq> event_key Before_block_exec_asid collision_b \<and>
   hash_RecordID (std_hash target64) (event_key Before_block_exec_asid collision_a) =
     hash_RecordID (std_hash target64) (event_key Before_block_exec_asid collision_b) \<and>
   (\<exists>st'. run_blocks target64 Before_block_exec_asid (plugin_started 2)
             [collision_a, collision_b, collision_a, collision_b] = Inr st' \<and>
          written st' = ''0x0,0,0x1,4'' @ [LF] @ ''0x2,0,0x0,4'' @ [LF])"
proof -
  let ?evs = "[collision_a, collision_b, collision_a, collision_b]"
  have h1: "coveragelog (plugin_started 2) =
      Some \<lparr>f_path = ''coverage.csv'', f_vbuf = None, f_out = []\<rparr>"
    by (simp add: plugin_started_def plugin_loaded_def)
  have h2: "seen_of Before_block_exec_asid (plugin_started 2) = us_empty 2"
    by (simp add: plugin_started_def plugin_loaded_def seen_of_def)
  have h3: "(0::nat) < 2"
    by simp
  have h4: "\<forall>e\<in>set ?evs. resolved Before_block_exec_asid e"
    by (simp add: resolved_def)
  have h5: "collision_a \<in> set ?evs" and h6: "collision_b \<in> set ?evs"
    by simp_all
  have h7: "event_key Before_block_exec_asid collision_a \<noteq>
      event_key Before_block_exec_asid collision_b"
    by (simp add: event_key_def collision_a_def collision_b_def block_event_def user_cpu_def)
  have h8: "hash_RecordID (std_hash target64) (event_key Before_block_exec_asid collision_a) =
      hash_RecordID (std_hash target64) (event_key Before_block_exec_asid collision_b)"
    by (simp add: event_key_def collision_a_def collision_b_def block_event_def user_cpu_def
        hash_RecordID_def target64_def)
  have w0: "written (plugin_started 2) = []"
    by (simp add: written_def h1)
  have rows: "concat (map (event_row target64 Before_block_exec_asid)
      (first_seen (event_key Before_block_exec_asid) [] ?evs)) =
      ''0x0,0,0x1,4'' @ [LF] @ ''0x2,0,0x0,4'' @ [LF]"
    by (simp add: event_key_def event_row_def collision_a_def collision_b_def block_event_def
        user_cpu_def target64_def dec.simps hex.simps digit_char_def)
  from dedup_exact_under_collision [OF h1 h2 h3 h4 h5 h6 h7 h8]
  have "\<exists>st'. run_blocks target64 Before_block_exec_asid (plugin_started 2) ?evs = Inr st' \<and>
          written st' = ''0x0,0,0x1,4'' @ [LF] @ ''0x2,0,0x0,4'' @ [LF]"
    unfolding rows w0 by auto
  with h7 h8 show ?thesis
    by blast
qed


section \<open>The identity key\<close>

lemma xor_shift_swap:
  fixes x y :: "'a::len word"
  shows "x XOR push_bit 1 y = y XOR push_bit 1 x \<longleftrightarrow> x = y"
proof
  assume eq: "x XOR push_bit 1 y = y XOR push_bit 1 x"
  define c where "c = x XOR y"
  have "(x XOR push_bit 1 y) XOR (y XOR push_bit 1 y) = c"
    by (simp add: c_def ac_simps)
  moreover have "(y XOR push_bit 1 x) XOR (y XOR push_bit 1 y) = push_bit 1 c"
    by (simp add: c_def ac_simps)
  ultimately have "c = push_bit 1 c"
    using eq by simp
  then have "c = c + c"
    by (simp add: push_bit_eq_mult)
  then have "c = 0"
    by simp
  then have "(x XOR y) XOR y = 0 XOR y"
    by (simp only: c_def)
  then show "x = y"
    by (simp add: ac_simps)
next
  assume "x = y"
  then show "x XOR push_bit 1 y = y XOR push_bit 1 x"
    by simp
qed

text \<open>
  Claim C6. The identity key is sensitive to the order of its fields. For two different
  values \<open>A\<close> and \<open>B\<close> the keys \<open>(A, B)\<close> and \<open>(B, A)\<close> are unequal under
  \<^verbatim>\<open>operator==\<close>, and the hash, a function of the key, is not commutative in the
  fields: the two keys have the same hash exactly when the library's hash of a word
  already gives \<open>A\<close> and \<open>B\<close> the same value, so never under an injective word hash.
\<close>

theorem key_order_sensitive:
  assumes "A \<noteq> B"
  shows "\<not> RecordID_eq \<lparr>pid_or_asid = A, pc = B\<rparr> \<lparr>pid_or_asid = B, pc = A\<rparr> \<and>
         (hash_RecordID h \<lparr>pid_or_asid = A, pc = B\<rparr> = hash_RecordID h \<lparr>pid_or_asid = B, pc = A\<rparr>
            \<longleftrightarrow> h A = h B)"
  using assms xor_shift_swap [of "h A" "h B"]
  by (simp add: RecordID_eq_def hash_RecordID_def)

theorem key_order_sensitive_witness:
  "(1 :: 64 word) \<noteq> 2 \<and>
   \<not> RecordID_eq \<lparr>pid_or_asid = 1 :: 64 word, pc = 2\<rparr> \<lparr>pid_or_asid = 2, pc = 1\<rparr> \<and>
   hash_RecordID (std_hash target64) \<lparr>pid_or_asid = 1, pc = 2\<rparr> = 5 \<and>
   hash_RecordID (std_hash target64) \<lparr>pid_or_asid = 2, pc = 1\<rparr> = 0"
proof -
  have h: "(1 :: 64 word) \<noteq> 2"
    by simp
  from key_order_sensitive [OF h, of "std_hash target64"] h show ?thesis
    by (simp add: hash_RecordID_def target64_def)
qed

section \<open>The process-mode dispatcher\<close>

text \<open>
  Claim C8. In process mode, for a first-seen key, the name in the record is
  \<open>(kernel)\<close> when the CPU runs kernel code; otherwise it is the name of the current
  process when the lookup finds one, and \<open>(unknown)\<close> when it finds none; and the call
  returns 0. The events are those that reach the record: their thread lookup succeeded
  and the output stream is open.
\<close>

theorem process_name_resolution:
  assumes "coveragelog st = Some f" and "get_current_thread cpu = Some t"
    and "\<not> us_find (std_hash T) (seen_process st) \<lparr>pid_or_asid = pid t, pc = tb_pc tb\<rparr>"
  shows "\<exists>st'. before_block_exec_process T first_cpu st cpu tb = Inr (0, st') \<and>
           written st' =
             written st @
             (if panda_in_kernel first_cpu then ''(kernel)''
              else case get_current_process first_cpu of
                     Some proc \<Rightarrow> name proc
                   | None \<Rightarrow> ''(unknown)'') @
             '','' @ TARGET_FMT_lu T (pid t) @ '','' @ TARGET_FMT_lu T (tid t) @ '','' @
             (if panda_in_kernel first_cpu then ''1'' else ''0'') @ '',0x'' @
             TARGET_FMT_lx T (tb_pc tb) @ '','' @ dec (unat (tb_size tb)) @ [LF]"
  using assms
  by (auto simp: before_block_exec_process_def fprintf_def written_def Let_def
      fmt_lu_of_bool fmt_lu_ucast16 split: option.splits)

theorem process_name_resolution_witness:
  "coveragelog (plugin_started 2) = Some \<lparr>f_path = ''coverage.csv'', f_vbuf = None, f_out = []\<rparr> \<and>
   get_current_thread (user_cpu 10 None 0xAA) = Some \<lparr>pid = 10, tid = 7\<rparr> \<and>
   \<not> us_find (std_hash target64) (seen_process (plugin_started 2))
       \<lparr>pid_or_asid = 10, pc = 0x1000\<rparr> \<and>
   (\<exists>st'. before_block_exec_process target64 (user_cpu 10 None 0xAA) (plugin_started 2)
             (user_cpu 10 None 0xAA) \<lparr>tb_pc = 0x1000, tb_size = 4\<rparr> = Inr (0, st') \<and>
          written st' = ''(unknown),10,7,0,0x1000,4'' @ [LF])"
proof -
  have h1: "coveragelog (plugin_started 2) =
      Some \<lparr>f_path = ''coverage.csv'', f_vbuf = None, f_out = []\<rparr>"
    by (simp add: plugin_started_def plugin_loaded_def)
  have h2: "get_current_thread (user_cpu 10 None 0xAA) = Some \<lparr>pid = 10, tid = 7\<rparr>"
    by (simp add: user_cpu_def)
  have h3: "\<not> us_find (std_hash target64) (seen_process (plugin_started 2))
      \<lparr>pid_or_asid = pid \<lparr>pid = 10 :: 64 word, tid = 7\<rparr>,
       pc = tb_pc \<lparr>tb_pc = 0x1000 :: 64 word, tb_size = 4\<rparr>\<rparr>"
    by (simp add: plugin_started_def plugin_loaded_def us_find_def us_bucket_def us_empty_def)
  have w0: "written (plugin_started 2) = []"
    by (simp add: written_def h1)
  from process_name_resolution [OF h1 h2 h3, of "user_cpu 10 None 0xAA"]
  have "\<exists>st'. before_block_exec_process target64 (user_cpu 10 None 0xAA) (plugin_started 2)
             (user_cpu 10 None 0xAA) \<lparr>tb_pc = 0x1000, tb_size = 4\<rparr> = Inr (0, st') \<and>
          written st' = ''(unknown),10,7,0,0x1000,4'' @ [LF]"
    unfolding w0
    by (simp add: user_cpu_def target64_def dec.simps hex.simps digit_char_def)
  with h1 h2 h3 show ?thesis
    by simp
qed

text \<open>
  Claim C2. When the thread lookup yields no thread, the process id is to be the
  sentinel 0 and the call is to return normally. Line 69 does substitute 0, and line 70
  then reads \<^verbatim>\<open>thread->tid\<close> through the null pointer: the call faults.
\<close>

theorem null_thread_faults:
  "before_block_exec_process target64 lost_cpu (plugin_started 2) lost_cpu
     \<lparr>tb_pc = 0x1000, tb_size = 4\<rparr> = Inl Null_thread"
  by (simp add: before_block_exec_process_def lost_cpu_def)

section \<open>Startup\<close>

lemma init_plugin_open_fresh:
  assumes "init_plugin_open E filename buffer_size st = Inr (b, st')"
    and "coveragelog st' = Some f"
  shows "f_out f = [] \<and> f_path f = filename \<and> mode st' = mode st \<and> fopen_ok E filename"
  using assms
  by (auto simp: init_plugin_open_def fopen_w_def setvbuf_def say_def Let_def
      split: if_splits)

lemma init_plugin_header_open:
  assumes "init_plugin_header st = Inr r"
  shows "\<exists>f. coveragelog st = Some f"
  using assms
  by (cases "coveragelog st") (auto simp: init_plugin_header_def fprintf_def split: if_splits)

lemma init_plugin_header_result:
  assumes "coveragelog st = Some f"
  shows "init_plugin_header st =
     Inr (True,
       st\<lparr>coveragelog :=
            Some (f\<lparr>f_out := f_out f @
              (case mode st of
                 MODE_PROCESS \<Rightarrow>
                   ''process'' @ [LF] @
                   ''process name,process id,thread id,in kernel,block address,block size'' @ [LF]
               | MODE_ASID \<Rightarrow>
                   ''asid'' @ [LF] @ ''asid,in kernel,block address,block size'' @ [LF])\<rparr>),
          registered :=
            Some (case mode st of
                    MODE_PROCESS \<Rightarrow> Before_block_exec_process
                  | MODE_ASID \<Rightarrow> Before_block_exec_asid)\<rparr>)"
  using assms
  by (cases "mode st") (simp_all add: init_plugin_header_def fprintf_def)

lemma init_plugin_reaches_open:
  assumes "init_plugin_mode E st = (True, st1)"
    and "init_plugin_osi E (say (Info_buffer_size (panda_parse_uint32_opt (arg_buffer_size E) (BUFSIZ E))) st1) = Inr st3"
    and "fopen_ok E (panda_parse_string (arg_filename E) ''coverage.csv'')"
  shows "init_plugin E st =
     (let f = \<lparr>f_path = panda_parse_string (arg_filename E) ''coverage.csv'', f_vbuf = None, f_out = []\<rparr>;
          bs = panda_parse_uint32_opt (arg_buffer_size E) (BUFSIZ E);
          st4 = st3\<lparr>fs := (fs st3)(f_path f \<mapsto> [])\<rparr>
      in if BUFSIZ E = bs then init_plugin_header (st4\<lparr>coveragelog := Some f\<rparr>)
         else if setvbuf_ret E \<noteq> 0
           then Inr (False, say Error_buffer_size (st4\<lparr>coveragelog := Some f\<rparr>))
           else init_plugin_header
                  (st4\<lparr>coveragelog :=
                         Some (f\<lparr>f_vbuf := Some (if 0 = bs then Unbuffered
                                                  else Fully_buffered (libc_buffer_size E bs))\<rparr>)\<rparr>))"
  using assms
  by (simp add: init_plugin_def init_plugin_open_def fopen_w_def setvbuf_def Let_def)

text \<open>
  Claim C7. After every successful startup the output holds exactly two lines and no
  data row yet: the name of the active mode, then the column schema of that mode; and
  the dispatcher of that mode is the registered callback.
\<close>

theorem two_header_lines:
  assumes "init_plugin E st = Inr (True, st')"
  shows "written st' =
           (case mode st' of
              MODE_PROCESS \<Rightarrow>
                ''process'' @ [LF] @
                ''process name,process id,thread id,in kernel,block address,block size'' @ [LF]
            | MODE_ASID \<Rightarrow>
                ''asid'' @ [LF] @ ''asid,in kernel,block address,block size'' @ [LF]) \<and>
         registered st' =
           Some (case mode st' of
                   MODE_PROCESS \<Rightarrow> Before_block_exec_process
                 | MODE_ASID \<Rightarrow> Before_block_exec_asid)"
proof -
  from assms obtain st3 st4 where
    op: "init_plugin_open E (panda_parse_string (arg_filename E) ''coverage.csv'')
           (panda_parse_uint32_opt (arg_buffer_size E) (BUFSIZ E)) st3 = Inr (True, st4)"
    and hd: "init_plugin_header st4 = Inr (True, st')"
    by (auto simp: init_plugin_def Let_def split: prod.splits bool.splits sum.splits)
  from init_plugin_header_open [OF hd] obtain f where f1: "coveragelog st4 = Some f"
    by blast
  from init_plugin_open_fresh [OF op f1] have f2: "f_out f = []"
    by simp
  note f = f1 f2
  from hd show ?thesis
    unfolding init_plugin_header_result [OF f(1)]
    by (auto simp: written_def f(2) split: coverage_mode.splits)
qed

theorem two_header_lines_witness:
  "\<exists>st'. init_plugin startup_linux (plugin_loaded 2 Map.empty :: 64 word plugin) = Inr (True, st') \<and>
     mode st' = MODE_PROCESS \<and>
     written st' =
       ''process'' @ [LF] @
       ''process name,process id,thread id,in kernel,block address,block size'' @ [LF]"
proof -
  have run: "init_plugin startup_linux (plugin_loaded 2 Map.empty :: 64 word plugin) =
     Inr (True,
       (plugin_loaded 2 Map.empty)
         \<lparr>mode := MODE_PROCESS,
          coveragelog := Some \<lparr>f_path = ''coverage.csv'', f_vbuf = None,
            f_out = ''process'' @ [LF] @
              ''process name,process id,thread id,in kernel,block address,block size'' @ [LF]\<rparr>,
          registered := Some Before_block_exec_process,
          console := [Info_buffer_size 8192, Info_mode_process],
          required := [''osi''],
          fs := [''coverage.csv'' \<mapsto> []]\<rparr>)"
    by (simp add: init_plugin_def init_plugin_mode_def init_plugin_osi_def init_plugin_open_def
        init_plugin_header_def startup_linux_def plugin_loaded_def panda_parse_string_def
        panda_parse_string_opt_def panda_parse_uint32_opt_def fopen_w_def say_def fprintf_def
        Let_def)
  from two_header_lines [OF run] run show ?thesis
    by simp
qed

text \<open>
  Claim C4. When the mode argument is given and is neither \<open>process\<close> nor \<open>asid\<close>,
  \<^verbatim>\<open>init_plugin\<close> returns false and leaves everything but the error message as it
  was: no callback is registered, no stream is opened and no file is touched.
\<close>

theorem invalid_mode_rejected:
  assumes "arg_mode E = Some m" and "m \<noteq> ''process''" and "m \<noteq> ''asid''"
  shows "init_plugin E st = Inr (False, st\<lparr>console := console st @ [Error_invalid_mode m]\<rparr>)"
  using assms
  by (simp add: init_plugin_def init_plugin_mode_def panda_parse_string_opt_def say_def)

theorem invalid_mode_rejected_witness:
  "arg_mode (startup_linux\<lparr>arg_mode := Some ''bogus''\<rparr>) = Some ''bogus'' \<and>
   ''bogus'' \<noteq> ''process'' \<and> ''bogus'' \<noteq> ''asid'' \<and>
   init_plugin (startup_linux\<lparr>arg_mode := Some ''bogus''\<rparr>) (plugin_loaded 2 Map.empty :: 64 word plugin) =
     Inr (False, (plugin_loaded 2 Map.empty)\<lparr>console := [Error_invalid_mode ''bogus'']\<rparr>)"
proof -
  have h1: "arg_mode (startup_linux\<lparr>arg_mode := Some ''bogus''\<rparr>) = Some ''bogus''"
    by simp
  have h2: "''bogus'' \<noteq> ''process''" and h3: "''bogus'' \<noteq> ''asid''"
    by simp_all
  from invalid_mode_rejected [OF h1 h2 h3, of "plugin_loaded 2 Map.empty :: 64 word plugin"]
  show ?thesis
    by (simp add: plugin_loaded_def)
qed

text \<open>
  Claim C5, as stated, fails: with process mode requested and no OS family, startup
  still returns false when applying the requested buffer size fails.
\<close>

theorem process_without_os_counterexample:
  "arg_mode (startup_no_os\<lparr>arg_buffer_size := Some 4096, setvbuf_ret := - 1\<rparr>) = Some ''process'' \<and>
   panda_os_familyno (startup_no_os\<lparr>arg_buffer_size := Some 4096, setvbuf_ret := - 1\<rparr>) = OS_UNKNOWN \<and>
   init_plugin (startup_no_os\<lparr>arg_buffer_size := Some 4096, setvbuf_ret := - 1\<rparr>)
     (plugin_loaded 2 Map.empty :: 64 word plugin) =
   Inr (False,
     (plugin_loaded 2 Map.empty)
       \<lparr>coveragelog := Some \<lparr>f_path = ''coverage.csv'', f_vbuf = None, f_out = []\<rparr>,
        console := [Info_buffer_size 4096, Warning_no_os, Error_buffer_size],
        fs := [''coverage.csv'' \<mapsto> []]\<rparr>)"
  by (simp add: init_plugin_def init_plugin_mode_def init_plugin_osi_def init_plugin_open_def
      startup_no_os_def startup_linux_def plugin_loaded_def panda_parse_string_def
      panda_parse_string_opt_def panda_parse_uint32_opt_def fopen_w_def setvbuf_def say_def
      Let_def)

text \<open>
  Claim C5, amended. When process mode is requested, no OS family is configured, the
  output file opens, and the buffer size is the default or \<^verbatim>\<open>setvbuf\<close> succeeds,
  startup succeeds: the mode is forced to asid with a warning, the asid dispatcher is
  registered, and the output starts with the line \<open>asid\<close>.
\<close>

theorem process_without_os_falls_back:
  assumes "arg_mode E = Some ''process''" and "panda_os_familyno E = OS_UNKNOWN"
    and "fopen_ok E (panda_parse_string (arg_filename E) ''coverage.csv'')"
    and "panda_parse_uint32_opt (arg_buffer_size E) (BUFSIZ E) = BUFSIZ E \<or> setvbuf_ret E = 0"
  shows "\<exists>st'. init_plugin E st = Inr (True, st') \<and> mode st' = MODE_ASID \<and>
           registered st' = Some Before_block_exec_asid \<and>
           Warning_no_os \<in> set (console st') \<and>
           written st' = ''asid'' @ [LF] @ ''asid,in kernel,block address,block size'' @ [LF]"
proof -
  have m: "init_plugin_mode E st = (True, st\<lparr>mode := MODE_PROCESS\<rparr>)"
    using assms(1,2) by (simp add: init_plugin_mode_def panda_parse_string_opt_def)
  define st3 where "st3 =
    (say Warning_no_os
       (say (Info_buffer_size (panda_parse_uint32_opt (arg_buffer_size E) (BUFSIZ E)))
          (st\<lparr>mode := MODE_PROCESS\<rparr>)))\<lparr>mode := MODE_ASID\<rparr>"
  have o: "init_plugin_osi E
      (say (Info_buffer_size (panda_parse_uint32_opt (arg_buffer_size E) (BUFSIZ E)))
         (st\<lparr>mode := MODE_PROCESS\<rparr>)) = Inr st3"
    using assms(2) by (simp add: init_plugin_osi_def say_def st3_def)
  have c: "mode st3 = MODE_ASID" "Warning_no_os \<in> set (console st3)"
    by (simp_all add: st3_def say_def)
  show ?thesis
    unfolding init_plugin_reaches_open [OF m o assms(3)]
    using assms(4) c
    by (auto simp: Let_def init_plugin_header_def fprintf_def written_def)
qed

theorem process_without_os_falls_back_witness:
  "arg_mode startup_no_os = Some ''process'' \<and> panda_os_familyno startup_no_os = OS_UNKNOWN \<and>
   (\<exists>st'. init_plugin startup_no_os (plugin_loaded 2 Map.empty :: 64 word plugin) = Inr (True, st') \<and>
      mode st' = MODE_ASID \<and> registered st' = Some Before_block_exec_asid \<and>
      Warning_no_os \<in> set (console st') \<and>
      written st' = ''asid'' @ [LF] @ ''asid,in kernel,block address,block size'' @ [LF])"
proof -
  have h1: "arg_mode startup_no_os = Some ''process''"
    and h2: "panda_os_familyno startup_no_os = OS_UNKNOWN"
    and h3: "fopen_ok startup_no_os (panda_parse_string (arg_filename startup_no_os) ''coverage.csv'')"
    and h4: "panda_parse_uint32_opt (arg_buffer_size startup_no_os) (BUFSIZ startup_no_os) =
        BUFSIZ startup_no_os \<or> setvbuf_ret startup_no_os = 0"
    by (simp_all add: startup_no_os_def startup_linux_def)
  from process_without_os_falls_back [OF h1 h2 h3 h4] h1 h2 show ?thesis
    by blast
qed

text \<open>
  Claim C9, as stated, fails twice. An explicit buffer size equal to \<^verbatim>\<open>BUFSIZ\<close> is
  nonzero, \<^verbatim>\<open>setvbuf\<close> is not called for it, and the stream keeps the buffering it was
  opened with. And for a size of 65536 bytes \<^verbatim>\<open>setvbuf\<close> gets no buffer of that size but
  the null pointer, so that the library allocates the buffer: here one of 4096 bytes.
\<close>

theorem requested_size_not_applied_counterexample:
  "init_plugin (startup_linux\<lparr>arg_buffer_size := Some 8192\<rparr>)
     (plugin_loaded 2 Map.empty :: 64 word plugin) =
   Inr (True,
     (plugin_loaded 2 Map.empty)
       \<lparr>mode := MODE_PROCESS,
        coveragelog := Some \<lparr>f_path = ''coverage.csv'', f_vbuf = None,
          f_out = ''process'' @ [LF] @
            ''process name,process id,thread id,in kernel,block address,block size'' @ [LF]\<rparr>,
        registered := Some Before_block_exec_process,
        console := [Info_buffer_size 8192, Info_mode_process],
        required := [''osi''],
        fs := [''coverage.csv'' \<mapsto> []]\<rparr>) \<and>
   init_plugin (startup_linux\<lparr>arg_buffer_size := Some 65536\<rparr>)
     (plugin_loaded 2 Map.empty :: 64 word plugin) =
   Inr (True,
     (plugin_loaded 2 Map.empty)
       \<lparr>mode := MODE_PROCESS,
        coveragelog := Some \<lparr>f_path = ''coverage.csv'', f_vbuf = Some (Fully_buffered 4096),
          f_out = ''process'' @ [LF] @
            ''process name,process id,thread id,in kernel,block address,block size'' @ [LF]\<rparr>,
        registered := Some Before_block_exec_process,
        console := [Info_buffer_size 65536, Info_mode_process],
        required := [''osi''],
        fs := [''coverage.csv'' \<mapsto> []]\<rparr>)"
  by (simp add: init_plugin_def init_plugin_mode_def init_plugin_osi_def init_plugin_open_def
      init_plugin_header_def startup_linux_def plugin_loaded_def panda_parse_string_def
      panda_parse_string_opt_def panda_parse_uint32_opt_def fopen_w_def setvbuf_def say_def
      fprintf_def Let_def)

text \<open>
  Claim C9, amended. When the mode is recognised, the OS introspection initialises and
  the output file opens: with no buffer size, or one equal to \<^verbatim>\<open>BUFSIZ\<close>,
  \<^verbatim>\<open>setvbuf\<close> is not called, the stream keeps its default buffering and startup
  succeeds; with any other size, \<^verbatim>\<open>setvbuf\<close> is called with the null pointer for the
  buffer and with that size, a failing call makes \<^verbatim>\<open>init_plugin\<close> return false with no
  callback registered, and after a successful call the stream is unbuffered for size 0
  and, for a nonzero size, fully buffered with a buffer that the C library allocates,
  of the number of bytes the library chooses for that request.
\<close>

theorem buffering_policy:
  assumes "arg_mode E = None \<or> arg_mode E = Some ''asid'' \<or> arg_mode E = Some ''process''"
    and "init_osi_api E"
    and "fopen_ok E (panda_parse_string (arg_filename E) ''coverage.csv'')"
  shows "\<exists>ok st'. init_plugin E st = Inr (ok, st') \<and>
           (if panda_parse_uint32_opt (arg_buffer_size E) (BUFSIZ E) = BUFSIZ E
            then ok \<and> map_option f_vbuf (coveragelog st') = Some None
            else if setvbuf_ret E \<noteq> 0
              then \<not> ok \<and> registered st' = registered st
              else ok \<and>
                map_option f_vbuf (coveragelog st') =
                  Some (Some (if panda_parse_uint32_opt (arg_buffer_size E) (BUFSIZ E) = 0
                              then Unbuffered
                              else Fully_buffered
                                     (libc_buffer_size E
                                        (panda_parse_uint32_opt (arg_buffer_size E) (BUFSIZ E))))))"
proof -
  have "\<exists>st1. init_plugin_mode E st = (True, st1) \<and> registered st1 = registered st"
    using assms(1)
    by (auto simp: init_plugin_mode_def panda_parse_string_opt_def Let_def)
  then obtain st1 where m: "init_plugin_mode E st = (True, st1)"
    and r1: "registered st1 = registered st"
    by blast
  have "\<exists>st3. init_plugin_osi E
      (say (Info_buffer_size (panda_parse_uint32_opt (arg_buffer_size E) (BUFSIZ E))) st1) = Inr st3 \<and>
      registered st3 = registered st1"
    using assms(2) by (auto simp: init_plugin_osi_def say_def Let_def)
  then obtain st3 where o: "init_plugin_osi E
      (say (Info_buffer_size (panda_parse_uint32_opt (arg_buffer_size E) (BUFSIZ E))) st1) = Inr st3"
    and r3: "registered st3 = registered st1"
    by blast
  show ?thesis
    unfolding init_plugin_reaches_open [OF m o assms(3)]
    using r1 r3
    by (auto simp: Let_def init_plugin_header_def fprintf_def say_def)
qed

theorem buffering_policy_witness:
  "(arg_mode (startup_linux\<lparr>arg_buffer_size := Some 100\<rparr>) = None \<or>
    arg_mode (startup_linux\<lparr>arg_buffer_size := Some 100\<rparr>) = Some ''asid'' \<or>
    arg_mode (startup_linux\<lparr>arg_buffer_size := Some 100\<rparr>) = Some ''process'') \<and>
   init_osi_api (startup_linux\<lparr>arg_buffer_size := Some 100\<rparr>) \<and>
   fopen_ok (startup_linux\<lparr>arg_buffer_size := Some 100\<rparr>) ''coverage.csv'' \<and>
   (\<exists>ok st'. init_plugin (startup_linux\<lparr>arg_buffer_size := Some 100\<rparr>)
                (plugin_loaded 2 Map.empty :: 64 word plugin) = Inr (ok, st') \<and>
      ok \<and> map_option f_vbuf (coveragelog st') = Some (Some (Fully_buffered 4096)))"
proof -
  let ?E = "startup_linux\<lparr>arg_buffer_size := Some 100\<rparr>"
  have h1: "arg_mode ?E = None \<or> arg_mode ?E = Some ''asid'' \<or> arg_mode ?E = Some ''process''"
    and h2: "init_osi_api ?E"
    and h3: "fopen_ok ?E (panda_parse_string (arg_filename ?E) ''coverage.csv'')"
    and h3': "fopen_ok ?E ''coverage.csv''"
    by (simp_all add: startup_linux_def)
  from buffering_policy [OF h1 h2 h3, of "plugin_loaded 2 Map.empty :: 64 word plugin"]
  have "\<exists>ok st'. init_plugin ?E (plugin_loaded 2 Map.empty :: 64 word plugin) = Inr (ok, st') \<and>
      ok \<and> map_option f_vbuf (coveragelog st') = Some (Some (Fully_buffered 4096))"
    by (simp add: startup_linux_def panda_parse_uint32_opt_def)
  with h1 h2 h3' show ?thesis
    by blast
qed

text \<open>
  Claim C3. When the output file cannot be opened, \<^verbatim>\<open>init_plugin\<close> is to return
  false. The result of \<^verbatim>\<open>fopen\<close> is never tested (line 183): the null stream goes to
  \<^verbatim>\<open>setvbuf\<close> or \<^verbatim>\<open>fprintf\<close>, and startup faults instead of returning false.
\<close>

theorem unopened_output_faults:
  "init_plugin startup_unwritable (plugin_loaded 2 Map.empty :: 64 word plugin) = Inl Null_stream"
  by (simp add: init_plugin_def init_plugin_mode_def init_plugin_osi_def init_plugin_open_def
      init_plugin_header_def startup_unwritable_def startup_linux_def plugin_loaded_def
      panda_parse_string_def panda_parse_string_opt_def panda_parse_uint32_opt_def fopen_w_def
      say_def fprintf_def Let_def)

end
